theory Spec2Isabelle
  imports Complex_Main "HOL-Library.Multiset" "HOL-Library.Sublist"
begin

section \<open>Extinction curve: \<open>FMpar\<close>\<close>

text \<open>
  The notebook \<open>Exploring_UV_extinction_curves_pt2_SOLUTION\<close> defines

  \<^verbatim>\<open>
  def FMpar(x, C1, C2, C3, C4, xo, gamma):
      F = np.zeros(len(x))
      for i in range(len(x)):
          if x[i] >= 5.9:
              F = 0.5392*(x-5.9)**2+0.05644*(x-5.9)**3
      D = x**2/((x**2-xo**2)**2+x**2*gamma**2)
      k = C1 + C2*x + C3*D + C4*F
      return k
  \<close>

  A one-dimensional float array is a list of reals: the arithmetic is the exact one, the
  rounding of binary64 is outside the model, and so is numpy's division by zero
  (\<open>inf\<close> or \<open>nan\<close> with a warning; HOL's \<open>v / 0\<close> is \<open>0\<close>).
  The numpy operators between a scalar and an array, and between two arrays of one
  length, work element by element.
\<close>

definition np_zeros :: "nat \<Rightarrow> real list" where
  "np_zeros n = replicate n 0"

definition scalar_add :: "real \<Rightarrow> real list \<Rightarrow> real list" where
  "scalar_add c xs = map (\<lambda>v. c + v) xs"

definition scalar_mul :: "real \<Rightarrow> real list \<Rightarrow> real list" where
  "scalar_mul c xs = map (\<lambda>v. c * v) xs"

definition array_add :: "real list \<Rightarrow> real list \<Rightarrow> real list" where
  "array_add xs ys = map2 (\<lambda>a b. a + b) xs ys"

text \<open>The right-hand side of the assignment to \<open>F\<close>: an expression of the whole array \<open>x\<close>.\<close>

definition far_UV_array :: "real list \<Rightarrow> real list" where
  "far_UV_array x = map (\<lambda>v. 0.5392 * (v - 5.9)^2 + 0.05644 * (v - 5.9)^3) x"

text \<open>
  The \<open>for\<close> loop over \<open>range(len(x))\<close>, with the array \<open>F\<close> as its state: an
  iteration whose test holds rebinds \<open>F\<close> to the whole array expression.
\<close>

fun FMpar_loop :: "real list \<Rightarrow> nat list \<Rightarrow> real list \<Rightarrow> real list" where
  "FMpar_loop x [] F = F"
| "FMpar_loop x (i # rest) F =
     FMpar_loop x rest (if x ! i \<ge> 5.9 then far_UV_array x else F)"

definition Drude_array :: "real list \<Rightarrow> real \<Rightarrow> real \<Rightarrow> real list" where
  "Drude_array x xo gamma = map (\<lambda>v. v^2 / ((v^2 - xo^2)^2 + v^2 * gamma^2)) x"

definition FMpar ::
  "real list \<Rightarrow> real \<Rightarrow> real \<Rightarrow> real \<Rightarrow> real \<Rightarrow> real \<Rightarrow> real \<Rightarrow> real list" where
  "FMpar x C1 C2 C3 C4 xo gamma =
     (let F = FMpar_loop x [0..<length x] (np_zeros (length x));
          D = Drude_array x xo gamma;
          k = array_add (array_add (scalar_add C1 (scalar_mul C2 x)) (scalar_mul C3 D))
                (scalar_mul C4 F)
      in k)"

text \<open>The four-parameter version of the same notebook fixes \<open>xo = 4.6\<close> and \<open>gamma = 1.0\<close>.\<close>

definition FMpar4 :: "real list \<Rightarrow> real \<Rightarrow> real \<Rightarrow> real \<Rightarrow> real \<Rightarrow> real list" where
  "FMpar4 x C1 C2 C3 C4 = FMpar x C1 C2 C3 C4 4.6 1.0"

text \<open>
  The parametrization as the specification words it, one element at a time: the
  far-UV term is zero below the threshold.
\<close>

definition F_pointwise :: "real \<Rightarrow> real" where
  "F_pointwise v = (if v \<ge> 5.9 then 0.5392 * (v - 5.9)^2 + 0.05644 * (v - 5.9)^3 else 0)"

definition D_pointwise :: "real \<Rightarrow> real \<Rightarrow> real \<Rightarrow> real" where
  "D_pointwise v xo gamma = v^2 / ((v^2 - xo^2)^2 + v^2 * gamma^2)"

definition FMpar_pointwise ::
  "real \<Rightarrow> real \<Rightarrow> real \<Rightarrow> real \<Rightarrow> real \<Rightarrow> real \<Rightarrow> real \<Rightarrow> real" where
  "FMpar_pointwise v C1 C2 C3 C4 xo gamma =
     C1 + C2 * v + C3 * D_pointwise v xo gamma + C4 * F_pointwise v"

section \<open>Observation identifier from a product file name\<close>

text \<open>
  \<^verbatim>\<open>
  filename='jw01039-o005_t001_miri_ch3-shortlongmedium-_x1d.fits'
  search=str.join('_',filename.split('_')[0:-1])
  \<close>

  \<open>str.split\<close> with a one-character separator cuts at every occurrence of it and
  keeps empty fields, so it returns at least one field; \<open>str.join\<close> writes the
  separator between the fields; the slice \<open>[0:-1]\<close> drops the last element of a
  list that has one and leaves the empty list empty.
\<close>

fun py_split :: "char \<Rightarrow> string \<Rightarrow> string list" where
  "py_split sep [] = [[]]"
| "py_split sep (c # cs) =
     (if c = sep then [] # py_split sep cs
      else (case py_split sep cs of
              [] \<Rightarrow> [[c]]
            | f # fs \<Rightarrow> (c # f) # fs))"

fun py_join :: "string \<Rightarrow> string list \<Rightarrow> string" where
  "py_join sep [] = []"
| "py_join sep [f] = f"
| "py_join sep (f # g # fs) = f @ sep @ py_join sep (g # fs)"

definition slice_0_minus1 :: "'a list \<Rightarrow> 'a list" where
  "slice_0_minus1 xs = take (length xs - 1) xs"

definition obs_id_search :: "string \<Rightarrow> string" where
  "obs_id_search filename = py_join ''_'' (slice_0_minus1 (py_split (CHR ''_'') filename))"

text \<open>The final token is \<open>filename.split('_')[-1]\<close>; the split is never empty.\<close>

definition last_token :: "string \<Rightarrow> string" where
  "last_token filename = last (py_split (CHR ''_'') filename)"

section \<open>Floating-point values that are only compared and moved\<close>

text \<open>
  Where the code does no arithmetic on the elements of an array but only tests and
  copies them, an element is kept as what binary64 holds: a finite number, an infinity
  or a NaN. A comparison with a NaN is false.
\<close>

datatype npfloat = Fin real | PInf | NInf | NaN

fun lt_zero :: "npfloat \<Rightarrow> bool" where
  "lt_zero (Fin r) = (r < 0)"
| "lt_zero NInf = True"
| "lt_zero PInf = False"
| "lt_zero NaN = False"

fun ge_zero :: "npfloat \<Rightarrow> bool" where
  "ge_zero (Fin r) = (0 \<le> r)"
| "ge_zero PInf = True"
| "ge_zero NInf = False"
| "ge_zero NaN = False"

fun is_nan :: "npfloat \<Rightarrow> bool" where
  "is_nan NaN = True"
| "is_nan _ = False"

datatype py_error = IndexError | ValueError | FileNotFoundError | OSError

text \<open>Sequencing of statements that may raise: the first exception ends the run.\<close>

definition bind_err :: "py_error + 'a \<Rightarrow> ('a \<Rightarrow> py_error + 'b) \<Rightarrow> py_error + 'b" where
  "bind_err r f = (case r of Inl e \<Rightarrow> Inl e | Inr v \<Rightarrow> f v)"

section \<open>Dropping negative fluxes: \<open>changeNaN\<close>\<close>

text \<open>
  \<^verbatim>\<open>
  def changeNaN(wavv,fluxx,wavv1,fluxx1):
      prob = np.where(fluxx < 0)[0]
      wavv = np.delete(wavv,prob)
      fluxx = np.delete(fluxx,prob)
      wavv1 = np.delete(wavv1,prob)
      fluxx1 = np.delete(fluxx1,prob)
      prob2 = np.where(fluxx1 < 0)[0]
      wavv = np.delete(wavv,prob2)
      fluxx = np.delete(fluxx,prob2)
      wavv1 = np.delete(wavv1,prob2)
      fluxx1 = np.delete(fluxx1,prob2)
      return wavv, fluxx, wavv1, fluxx1
  \<close>

  \<open>fluxx < 0\<close> is the array of the element-wise tests, \<open>np.where(m)[0]\<close> the
  increasing list of the indices at which \<open>m\<close> holds, and \<open>np.delete(a, idx)\<close> a new
  array without the elements at the indices \<open>idx\<close>; an index that is not one of \<open>a\<close>
  raises IndexError.
\<close>

definition less_zero :: "npfloat list \<Rightarrow> bool list" where
  "less_zero xs = map lt_zero xs"

definition np_where :: "bool list \<Rightarrow> nat list" where
  "np_where m = filter (\<lambda>i. m ! i) [0..<length m]"

definition np_delete :: "'a list \<Rightarrow> nat list \<Rightarrow> py_error + 'a list" where
  "np_delete a idx =
     (if list_all (\<lambda>i. i < length a) idx
      then Inr (map (\<lambda>i. a ! i) (filter (\<lambda>i. i \<notin> set idx) [0..<length a]))
      else Inl IndexError)"

definition changeNaN ::
  "npfloat list \<Rightarrow> npfloat list \<Rightarrow> npfloat list \<Rightarrow> npfloat list \<Rightarrow>
   py_error + (npfloat list \<times> npfloat list \<times> npfloat list \<times> npfloat list)" where
  "changeNaN wavv fluxx wavv1 fluxx1 =
     (let prob = np_where (less_zero fluxx) in
      bind_err (np_delete wavv prob) (\<lambda>wavv.
      bind_err (np_delete fluxx prob) (\<lambda>fluxx.
      bind_err (np_delete wavv1 prob) (\<lambda>wavv1.
      bind_err (np_delete fluxx1 prob) (\<lambda>fluxx1.
      let prob2 = np_where (less_zero fluxx1) in
      bind_err (np_delete wavv prob2) (\<lambda>wavv.
      bind_err (np_delete fluxx prob2) (\<lambda>fluxx.
      bind_err (np_delete wavv1 prob2) (\<lambda>wavv1.
      bind_err (np_delete fluxx1 prob2) (\<lambda>fluxx1.
      Inr (wavv, fluxx, wavv1, fluxx1))))))))))"

text \<open>
  The rows of four parallel arrays, and the two readings of "the rows that stay":
  those without a negative flux (what the tests of the code select), and those whose
  two fluxes are both at least zero (the specification's wording).
\<close>

definition rows4 :: "'a list \<Rightarrow> 'b list \<Rightarrow> 'c list \<Rightarrow> 'd list \<Rightarrow> ('a \<times> 'b \<times> 'c \<times> 'd) list" where
  "rows4 a b c d = zip a (zip b (zip c d))"

text \<open>The four columns of a row.\<close>

definition col1 :: "'a \<times> 'b \<times> 'c \<times> 'd \<Rightarrow> 'a" where
  "col1 r = fst r"
definition col2 :: "'a \<times> 'b \<times> 'c \<times> 'd \<Rightarrow> 'b" where
  "col2 r = fst (snd r)"
definition col3 :: "'a \<times> 'b \<times> 'c \<times> 'd \<Rightarrow> 'c" where
  "col3 r = fst (snd (snd r))"
definition col4 :: "'a \<times> 'b \<times> 'c \<times> 'd \<Rightarrow> 'd" where
  "col4 r = snd (snd (snd r))"

definition no_negative_flux :: "npfloat \<times> npfloat \<times> npfloat \<times> npfloat \<Rightarrow> bool" where
  "no_negative_flux r = (case r of (w, f, w1, f1) \<Rightarrow> \<not> lt_zero f \<and> \<not> lt_zero f1)"

definition both_flux_ge_zero :: "npfloat \<times> npfloat \<times> npfloat \<times> npfloat \<Rightarrow> bool" where
  "both_flux_ge_zero r = (case r of (w, f, w1, f1) \<Rightarrow> ge_zero f \<and> ge_zero f1)"

section \<open>Replacing NaN pixels by zero\<close>

text \<open>
  \<^verbatim>\<open>
  fits_img = fh[0].data
  fits_img[np.isnan(fits_img)] = 0.0
  \<close>

  The image is a two-dimensional array, a list of rows. \<open>np.isnan\<close> gives the array of
  the element-wise tests, and the assignment through a boolean mask of the array's own
  shape overwrites, in place, the elements at which the mask holds. The statement is a
  step on the one variable it can change: it takes the array to the array after it.
\<close>

definition np_isnan :: "npfloat list list \<Rightarrow> bool list list" where
  "np_isnan a = map (map is_nan) a"

definition mask_assign :: "'a list list \<Rightarrow> bool list list \<Rightarrow> 'a \<Rightarrow> 'a list list" where
  "mask_assign a msk c =
     map2 (\<lambda>row mrow. map2 (\<lambda>v m. if m then c else v) row mrow) a msk"

definition scrub_nan :: "npfloat list list \<Rightarrow> npfloat list list" where
  "scrub_nan fits_img = mask_assign fits_img (np_isnan fits_img) (Fin 0.0)"

section \<open>Expanding the mosaic canvas\<close>

text \<open>
  \<^verbatim>\<open>
  w = len(images_mbm15[0])
  new_zeros = np.zeros((w,w))
  new_image = np.append(images_mbm15[0], new_zeros, axis = 0)
  new_image = np.insert(new_image,0,new_zeros,axis= 0)
  new_zeros2 = np.zeros((w,3*w))
  new_image = np.insert(new_image,0,new_zeros2,axis= 1)
  new_image = np.insert(new_image,2*w,new_zeros2,axis= 1)
  \<close>

  A two-dimensional array is the list of its rows; the array without rows is \<open>[]\<close> and
  counts as having no columns. \<open>np.append\<close> and \<open>np.insert\<close> build new arrays and leave
  their arguments alone. Along axis 0, \<open>np.append\<close> puts the rows of the second array
  after those of the first (ValueError unless the row lengths agree), and \<open>np.insert\<close>
  with a scalar index puts the rows of \<open>values\<close> before row \<open>obj\<close> (IndexError when
  \<open>obj\<close> is beyond the number of rows). Along axis 1 and with a scalar index,
  \<open>np.insert\<close> first moves axis 0 of \<open>values\<close> to axis 1, which transposes it, and
  then puts the columns of the result before column \<open>obj\<close>. The model asks for the exact
  shape where numpy would also stretch an axis of length one.
\<close>

type_synonym matrix = "real list list"

definition np_zeros2 :: "nat \<Rightarrow> nat \<Rightarrow> matrix" where
  "np_zeros2 r c = replicate r (replicate c 0)"

definition ncols :: "matrix \<Rightarrow> nat" where
  "ncols m = (case m of [] \<Rightarrow> 0 | r # _ \<Rightarrow> length r)"

definition np_append_axis0 :: "matrix \<Rightarrow> matrix \<Rightarrow> py_error + matrix" where
  "np_append_axis0 arr vals =
     (if ncols arr = ncols vals then Inr (arr @ vals) else Inl ValueError)"

definition np_insert_axis0 :: "matrix \<Rightarrow> nat \<Rightarrow> matrix \<Rightarrow> py_error + matrix" where
  "np_insert_axis0 arr obj vals =
     (if length arr < obj then Inl IndexError
      else if ncols arr \<noteq> ncols vals then Inl ValueError
      else Inr (take obj arr @ vals @ drop obj arr))"

definition moveaxis_0_1 :: "matrix \<Rightarrow> matrix" where
  "moveaxis_0_1 vals =
     map (\<lambda>j. map (\<lambda>i. vals ! i ! j) [0..<length vals]) [0..<ncols vals]"

definition np_insert_axis1 :: "matrix \<Rightarrow> nat \<Rightarrow> matrix \<Rightarrow> py_error + matrix" where
  "np_insert_axis1 arr obj vals =
     (if ncols arr < obj then Inl IndexError
      else if length (moveaxis_0_1 vals) \<noteq> length arr then Inl ValueError
      else Inr (map2 (\<lambda>row v. take obj row @ v @ drop obj row) arr (moveaxis_0_1 vals)))"

text \<open>
  The variables of the cell. It reads \<open>images_mbm15[0]\<close> and assigns the four others.
\<close>

record canvas_vars =
  images_mbm15_0 :: matrix
  w :: nat
  new_zeros :: matrix
  new_zeros2 :: matrix
  new_image :: matrix

definition expand_canvas :: "matrix \<Rightarrow> py_error + canvas_vars" where
  "expand_canvas image0 =
     (let w = length image0;
          new_zeros = np_zeros2 w w in
      bind_err (np_append_axis0 image0 new_zeros) (\<lambda>new_image.
      bind_err (np_insert_axis0 new_image 0 new_zeros) (\<lambda>new_image.
      let new_zeros2 = np_zeros2 w (3 * w) in
      bind_err (np_insert_axis1 new_image 0 new_zeros2) (\<lambda>new_image.
      bind_err (np_insert_axis1 new_image (2 * w) new_zeros2) (\<lambda>new_image.
      Inr \<lparr> images_mbm15_0 = image0, w = w, new_zeros = new_zeros,
            new_zeros2 = new_zeros2, new_image = new_image \<rparr>)))))"

text \<open>A square array of side \<open>n\<close>.\<close>

definition square :: "nat \<Rightarrow> matrix \<Rightarrow> bool" where
  "square n m = (length m = n \<and> list_all (\<lambda>r. length r = n) m)"

text \<open>
  The result as a centred padding: every row of the three-block column (zeros, image,
  zeros) with \<open>n\<close> zeros before and after it.
\<close>

definition padded :: "nat \<Rightarrow> matrix \<Rightarrow> matrix" where
  "padded n image0 =
     map (\<lambda>row. replicate n 0 @ row @ replicate n 0) (np_zeros2 n n @ image0 @ np_zeros2 n n)"

section \<open>The table of candidates: sort, reverse, drop the masked rows\<close>

text \<open>
  \<^verbatim>\<open>
  tbl=catalogs[2]
  tbl.sort('qmin')
  tbl.reverse()
  tbl=tbl[~tbl['qmin'].mask]
  \<close>

  A row of the table has the seven columns the query asks for; a masked entry of a
  numeric column is \<open>None\<close>. The table is the list of its rows.
\<close>

record candidate =
  APOGEE :: string
  Per :: "real option"
  M1 :: "real option"
  M2min :: "real option"
  qmin :: "real option"
  RAJ2000 :: real
  DEJ2000 :: real

text \<open>
  \<open>Table.sort\<close> is astropy's. It reorders the rows in place into increasing order of
  the key column, by the argsort of a masked column, which puts the masked entries
  last. It is written as an insertion sort with that order on the keys.
\<close>

fun key_le :: "real option \<Rightarrow> real option \<Rightarrow> bool" where
  "key_le (Some a) (Some b) = (a \<le> b)"
| "key_le None (Some b) = False"
| "key_le _ None = True"

fun insert_by_qmin :: "candidate \<Rightarrow> candidate list \<Rightarrow> candidate list" where
  "insert_by_qmin r [] = [r]"
| "insert_by_qmin r (s # rest) =
     (if key_le (qmin r) (qmin s) then r # s # rest else s # insert_by_qmin r rest)"

definition sort_qmin :: "candidate list \<Rightarrow> candidate list" where
  "sort_qmin tbl = foldr insert_by_qmin tbl []"

text \<open>\<open>tbl[~tbl['qmin'].mask]\<close> keeps, in their order, the rows whose mask bit is off.\<close>

definition unmasked :: "candidate \<Rightarrow> bool" where
  "unmasked r = (qmin r \<noteq> None)"

definition candidates_pipeline :: "candidate list \<Rightarrow> candidate list" where
  "candidates_pipeline tbl = filter unmasked (rev (sort_qmin tbl))"

text \<open>The order the result is claimed to be in: each measured value at least the next.\<close>

definition qmin_ge :: "candidate \<Rightarrow> candidate \<Rightarrow> bool" where
  "qmin_ge r s = (case (qmin r, qmin s) of (Some a, Some b) \<Rightarrow> b \<le> a | _ \<Rightarrow> False)"

section \<open>Saving an array and reading it back: \<open>saveArray\<close>\<close>

text \<open>
  \<^verbatim>\<open>
  def saveArray(array,filename):
      print('First 3 elements of original array:\n', array[:3])
      print('Last 3 elements of original array:\n', array[-3:])
      np.savetxt(filename,array)
      content = np.loadtxt(filename)
      print('First 3 elements of '+filename+':\n', content[:3])
      print('Last 3 elements of '+filename+':\n', content[-3:],'\n')
      return None
  \<close>

  An array of finite numbers has zero, one, two or three axes here (three standing for
  the arrays that \<open>np.savetxt\<close> refuses); a two-dimensional array is the list of its
  rows, all of one length, a three-dimensional one a list of such.

  What the function acts on is outside it: the array object the caller passes (Python
  passes a reference), the file system and the standard output. They are the fields of a
  record that the function takes and returns. The file system is the map from paths to
  the files that exist, with the answer of the operating system to opening a path for
  reading or for writing: no exception, or the exception raised (FileNotFoundError for a
  path in a directory that does not exist, another OSError otherwise). An exception ends
  the run; the record returned with it is the state in which it was raised.

  The formatting of a number by \<open>'%.18e'\<close> and its parsing back are floating-point
  operations and are not modelled: a text file is the list of its lines, a line the list
  of the numbers written on it, so a number is read back exactly as written. Of a
  \<open>print\<close> only the array printed is recorded.
\<close>

datatype ndarray =
  Arr0 real | Arr1 "real list" | Arr2 "real list list" | Arr3 "real list list list"

type_synonym text_file = "real list list"

datatype open_mode = ForRead | ForWrite

record world =
  array :: ndarray
  open_error :: "open_mode \<Rightarrow> string \<Rightarrow> py_error option"
  files :: "string \<rightharpoonup> text_file"
  printed :: "ndarray list"

definition print_np :: "ndarray \<Rightarrow> world \<Rightarrow> world" where
  "print_np a wd = wd\<lparr>printed := printed wd @ [a]\<rparr>"

text \<open>
  The slices \<open>a[:3]\<close> and \<open>a[-3:]\<close> act on the first axis; an array without axes has
  none to slice and raises IndexError.
\<close>

fun slice_to_3 :: "ndarray \<Rightarrow> py_error + ndarray" where
  "slice_to_3 (Arr0 v) = Inl IndexError"
| "slice_to_3 (Arr1 xs) = Inr (Arr1 (take 3 xs))"
| "slice_to_3 (Arr2 rows) = Inr (Arr2 (take 3 rows))"
| "slice_to_3 (Arr3 planes) = Inr (Arr3 (take 3 planes))"

fun slice_from_minus3 :: "ndarray \<Rightarrow> py_error + ndarray" where
  "slice_from_minus3 (Arr0 v) = Inl IndexError"
| "slice_from_minus3 (Arr1 xs) = Inr (Arr1 (drop (length xs - 3) xs))"
| "slice_from_minus3 (Arr2 rows) = Inr (Arr2 (drop (length rows - 3) rows))"
| "slice_from_minus3 (Arr3 planes) = Inr (Arr3 (drop (length planes - 3) planes))"

text \<open>
  \<open>np.savetxt(fname, X)\<close> first opens the path for writing, which creates or empties
  the file, and then looks at \<open>X\<close>: an array with no axis or with more than two raises
  ValueError (the file stays, empty); a one-dimensional array is written one element a
  line, a two-dimensional one a row a line.
\<close>

definition np_savetxt :: "string \<Rightarrow> ndarray \<Rightarrow> world \<Rightarrow> (py_error + unit) \<times> world" where
  "np_savetxt fname X wd =
     (case open_error wd ForWrite fname of
        Some e \<Rightarrow> (Inl e, wd)
      | None \<Rightarrow>
          (case X of
             Arr0 v \<Rightarrow> (Inl ValueError, wd\<lparr>files := (files wd)(fname \<mapsto> [])\<rparr>)
           | Arr1 xs \<Rightarrow> (Inr (), wd\<lparr>files := (files wd)(fname \<mapsto> map (\<lambda>v. [v]) xs)\<rparr>)
           | Arr2 rows \<Rightarrow> (Inr (), wd\<lparr>files := (files wd)(fname \<mapsto> rows)\<rparr>)
           | Arr3 planes \<Rightarrow> (Inl ValueError, wd\<lparr>files := (files wd)(fname \<mapsto> [])\<rparr>)))"

text \<open>
  \<open>np.loadtxt(fname)\<close> opens the path for reading, skips the empty lines, raises
  ValueError when the lines differ in their number of fields, and squeezes the axes of
  length one out of its result (its \<open>ndmin\<close> is 0): a single number comes back as an
  array without axes, a single line or a single column as a one-dimensional array; a file
  without numbers gives an empty one-dimensional array (and a warning).
\<close>

definition squeeze_rows :: "text_file \<Rightarrow> py_error + ndarray" where
  "squeeze_rows f =
     (case filter (\<lambda>r. r \<noteq> []) f of
        [] \<Rightarrow> Inr (Arr1 [])
      | r # rest \<Rightarrow>
          if \<not> list_all (\<lambda>q. length q = length r) rest then Inl ValueError
          else if rest = [] then (case r of [v] \<Rightarrow> Inr (Arr0 v) | _ \<Rightarrow> Inr (Arr1 r))
          else if length r = 1 then Inr (Arr1 (map hd (r # rest)))
          else Inr (Arr2 (r # rest)))"

definition np_loadtxt :: "string \<Rightarrow> world \<Rightarrow> py_error + ndarray" where
  "np_loadtxt fname wd =
     (case open_error wd ForRead fname of
        Some e \<Rightarrow> Inl e
      | None \<Rightarrow>
          (case files wd fname of
             None \<Rightarrow> Inl FileNotFoundError
           | Some f \<Rightarrow> squeeze_rows f))"

definition saveArray :: "string \<Rightarrow> world \<Rightarrow> (py_error + unit) \<times> world" where
  "saveArray filename wd0 =
     (case slice_to_3 (array wd0) of
        Inl e \<Rightarrow> (Inl e, wd0)
      | Inr a_first \<Rightarrow>
     (let wd1 = print_np a_first wd0 in
      case slice_from_minus3 (array wd1) of
        Inl e \<Rightarrow> (Inl e, wd1)
      | Inr a_last \<Rightarrow>
     (let wd2 = print_np a_last wd1 in
      case np_savetxt filename (array wd2) wd2 of
        (Inl e, wd3) \<Rightarrow> (Inl e, wd3)
      | (Inr u, wd3) \<Rightarrow>
     (case np_loadtxt filename wd3 of
        Inl e \<Rightarrow> (Inl e, wd3)
      | Inr content \<Rightarrow>
     (case slice_to_3 content of
        Inl e \<Rightarrow> (Inl e, wd3)
      | Inr c_first \<Rightarrow>
     (let wd4 = print_np c_first wd3 in
      case slice_from_minus3 content of
        Inl e \<Rightarrow> (Inl e, wd4)
      | Inr c_last \<Rightarrow> (Inr (), print_np c_last wd4)))))))"

text \<open>
  The array that \<open>np.loadtxt\<close> returns for the file that \<open>np.savetxt\<close> has just written
  for the array of the world.
\<close>

definition reread :: "string \<Rightarrow> world \<Rightarrow> py_error + ndarray" where
  "reread filename wd =
     (case np_savetxt filename (array wd) wd of
        (Inl e, wd') \<Rightarrow> Inl e
      | (Inr u, wd') \<Rightarrow> np_loadtxt filename wd')"

text \<open>A world in which every path can be opened, no file exists and nothing is printed.\<close>

definition fresh_world :: "ndarray \<Rightarrow> world" where
  "fresh_world a = \<lparr>array = a, open_error = (\<lambda>m p. None), files = Map.empty, printed = []\<rparr>"

section \<open>Properties\<close>


subsection \<open>The extinction curve\<close>

text \<open>What the loop leaves in \<open>F\<close>: all of the array expression, or all zeros.\<close>

lemma FMpar_loop_eq:
  "FMpar_loop x idx F = (if \<exists>i\<in>set idx. x ! i \<ge> 5.9 then far_UV_array x else F)"
proof (induction idx arbitrary: F)
  case Nil
  show ?case by simp
next
  case (Cons i rest)
  show ?case
  proof (cases "x ! i \<ge> 5.9")
    case True
    then show ?thesis by (simp add: Cons.IH)
  next
    case False
    then show ?thesis by (simp add: Cons.IH)
  qed
qed

lemma ex_index_conv: "(\<exists>i\<in>set [0..<length x]. P (x ! i)) = (\<exists>v\<in>set x. P v)"
proof
  assume "\<exists>i\<in>set [0..<length x]. P (x ! i)"
  then obtain i where "i < length x" and "P (x ! i)" by auto
  moreover from this have "x ! i \<in> set x" by simp
  ultimately show "\<exists>v\<in>set x. P v" by blast
next
  assume "\<exists>v\<in>set x. P v"
  then obtain v where "v \<in> set x" and p: "P v" by blast
  then obtain i where "i < length x" and "x ! i = v" by (auto simp: in_set_conv_nth)
  with p have "i \<in> set [0..<length x]" and "P (x ! i)" by simp_all
  then show "\<exists>i\<in>set [0..<length x]. P (x ! i)" by blast
qed

lemma FMpar_loop_range:
  "FMpar_loop x [0..<length x] F = (if \<exists>v\<in>set x. v \<ge> 5.9 then far_UV_array x else F)"
proof -
  have "(\<exists>i\<in>set [0..<length x]. x ! i \<ge> 5.9) = (\<exists>v\<in>set x. v \<ge> 5.9)"
    by (rule ex_index_conv)
  then show ?thesis by (simp only: FMpar_loop_eq)
qed

lemma length_FMpar: "length (FMpar x C1 C2 C3 C4 xo gamma) = length x"
  by (simp add: FMpar_def FMpar_loop_range np_zeros_def scalar_add_def scalar_mul_def
      array_add_def far_UV_array_def Drude_array_def)

lemma FMpar_nth:
  assumes "i < length x"
  shows "FMpar x C1 C2 C3 C4 xo gamma ! i =
     C1 + C2 * x ! i + C3 * D_pointwise (x ! i) xo gamma +
     C4 * (if \<exists>v\<in>set x. v \<ge> 5.9
           then 0.5392 * (x ! i - 5.9)^2 + 0.05644 * (x ! i - 5.9)^3 else 0)"
  using assms
  by (simp add: FMpar_def FMpar_loop_range np_zeros_def scalar_add_def scalar_mul_def
      array_add_def far_UV_array_def Drude_array_def D_pointwise_def)

text \<open>
  The code and the element-wise parametrization agree on an array that lies wholly on one
  side of the threshold.
\<close>

lemma FMpar_pointwise_uniform:
  assumes "i < length x" and "(\<forall>v\<in>set x. v \<ge> 5.9) \<or> (\<forall>v\<in>set x. v < 5.9)"
  shows "FMpar x C1 C2 C3 C4 xo gamma ! i = FMpar_pointwise (x ! i) C1 C2 C3 C4 xo gamma"
proof -
  have mem: "x ! i \<in> set x" using assms(1) by simp
  from assms(2) show ?thesis
  proof
    assume a: "\<forall>v\<in>set x. v \<ge> 5.9"
    then have "\<exists>v\<in>set x. v \<ge> 5.9" using mem by blast
    moreover have "x ! i \<ge> 5.9" using a mem by blast
    ultimately show ?thesis
      by (simp add: FMpar_nth [OF assms(1)] FMpar_pointwise_def F_pointwise_def)
  next
    assume a: "\<forall>v\<in>set x. v < 5.9"
    then have "\<not> (\<exists>v\<in>set x. v \<ge> 5.9)" by (auto simp: not_le)
    moreover have "\<not> x ! i \<ge> 5.9" using a mem by (auto simp: not_le)
    ultimately show ?thesis
      by (simp add: FMpar_nth [OF assms(1)] FMpar_pointwise_def F_pointwise_def)
  qed
qed

text \<open>
  Claim C1 (the code departs from it): the \<open>i\<close>-th output of \<open>FMpar\<close> should be
  \<open>C1 + C2*x[i] + C3*D(x[i]) + C4*F(x[i])\<close> with \<open>F(x[i]) = 0\<close> wherever
  \<open>x[i] < 5.9\<close>. The loop tests one element but assigns the whole array, so one
  element at or above the threshold gives every element the polynomial far-UV term: on
  the array \<open>[1, 6]\<close> with \<open>C4 = 1\<close> and the other coefficients zero the code returns
  \<open>157652061 / 25000000\<close> at index 0, where the parametrization gives \<open>0\<close>, and agrees
  with it at index 1. The four-parameter version has the same loop and returns the same.
\<close>

theorem FMpar_far_UV_whole_array:
  "FMpar [1, 6] 0 0 0 1 4.6 1 = [157652061 / 25000000, 136211 / 25000000] \<and>
   FMpar4 [1, 6] 0 0 0 1 = [157652061 / 25000000, 136211 / 25000000] \<and>
   FMpar_pointwise 1 0 0 0 1 4.6 1 = 0 \<and>
   FMpar_pointwise 6 0 0 0 1 4.6 1 = 136211 / 25000000"
  by (simp add: FMpar4_def FMpar_def np_zeros_def scalar_add_def scalar_mul_def array_add_def
      far_UV_array_def Drude_array_def FMpar_pointwise_def F_pointwise_def D_pointwise_def
      power2_eq_square power3_eq_cube)

subsection \<open>Dropping negative fluxes\<close>

text \<open>Deleting the indices that a mask selects keeps the elements the mask rejects.\<close>

lemma filter_by_index:
  "map (\<lambda>i. xs ! i) (filter (\<lambda>i. q (xs ! i)) [0..<length xs]) = filter q xs"
proof -
  have "filter q xs = filter q (map (\<lambda>i. xs ! i) [0..<length xs])"
    by (simp only: map_nth)
  also have "\<dots> = map (\<lambda>i. xs ! i) (filter (q \<circ> (\<lambda>i. xs ! i)) [0..<length xs])"
    by (simp only: filter_map)
  finally show ?thesis by (simp add: comp_def)
qed

lemma set_np_where: "set (np_where m) = {i. i < length m \<and> m ! i}"
  by (auto simp: np_where_def)

lemma np_delete_where:
  "np_delete (map g xs) (np_where (map p xs)) = Inr (map g (filter (\<lambda>x. \<not> p x) xs))"
proof -
  have inrange: "list_all (\<lambda>i. i < length (map g xs)) (np_where (map p xs))"
    by (simp add: list_all_iff set_np_where)
  have idx: "filter (\<lambda>i. i \<notin> set (np_where (map p xs))) [0..<length xs] =
        filter (\<lambda>i. \<not> p (xs ! i)) [0..<length xs]"
    by (rule filter_cong) (simp_all add: set_np_where)
  have "map (\<lambda>i. map g xs ! i)
       (filter (\<lambda>i. i \<notin> set (np_where (map p xs))) [0..<length (map g xs)]) =
      map (\<lambda>i. map g xs ! i) (filter (\<lambda>i. \<not> p (xs ! i)) [0..<length xs])"
    by (simp only: idx length_map)
  also have "\<dots> = map (\<lambda>i. g (xs ! i)) (filter (\<lambda>i. \<not> p (xs ! i)) [0..<length xs])"
    by (rule map_cong) simp_all
  also have "\<dots> = map g (map (\<lambda>i. xs ! i) (filter (\<lambda>i. \<not> p (xs ! i)) [0..<length xs]))"
    by simp
  also have "\<dots> = map g (filter (\<lambda>x. \<not> p x) xs)"
    using filter_by_index [of xs "\<lambda>x. \<not> p x"] by simp
  finally have "map (\<lambda>i. map g xs ! i)
       (filter (\<lambda>i. i \<notin> set (np_where (map p xs))) [0..<length (map g xs)]) =
      map g (filter (\<lambda>x. \<not> p x) xs)" .
  with inrange show ?thesis by (simp only: np_delete_def if_True)
qed

lemma rows4_cols:
  "rows4 (map col1 R) (map col2 R) (map col3 R) (map col4 R) = R"
  by (induction R) (simp_all add: rows4_def col1_def col2_def col3_def col4_def)

lemma cols_rows4:
  assumes "length a = length b" and "length c = length b" and "length d = length b"
  shows "map col1 (rows4 a b c d) = a" and "map col2 (rows4 a b c d) = b"
    and "map col3 (rows4 a b c d) = c" and "map col4 (rows4 a b c d) = d"
proof -
  have 1: "map fst (zip a (zip b (zip c d))) = a" using assms by simp
  have s: "map snd (zip a (zip b (zip c d))) = zip b (zip c d)" using assms by simp
  have s2: "map snd (zip b (zip c d)) = zip c d" using assms by simp
  have 2: "map (\<lambda>r. fst (snd r)) (zip a (zip b (zip c d))) = map fst (map snd (zip a (zip b (zip c d))))"
    by simp
  have 3: "map (\<lambda>r. fst (snd (snd r))) (zip a (zip b (zip c d))) =
      map fst (map snd (map snd (zip a (zip b (zip c d)))))"
    by simp
  have 4: "map (\<lambda>r. snd (snd (snd r))) (zip a (zip b (zip c d))) =
      map snd (map snd (map snd (zip a (zip b (zip c d)))))"
    by simp
  show "map col1 (rows4 a b c d) = a" using 1 by (simp add: rows4_def col1_def [abs_def])
  show "map col2 (rows4 a b c d) = b" unfolding rows4_def col2_def [abs_def] 2 s using assms by simp
  show "map col3 (rows4 a b c d) = c" unfolding rows4_def col3_def [abs_def] 3 s s2 using assms by simp
  show "map col4 (rows4 a b c d) = d" unfolding rows4_def col4_def [abs_def] 4 s s2 using assms by simp
qed

lemma changeNaN_rows:
  "changeNaN (map col1 R) (map col2 R) (map col3 R) (map col4 R) =
     (let R2 = filter (\<lambda>r. \<not> lt_zero (col4 r)) (filter (\<lambda>r. \<not> lt_zero (col2 r)) R)
      in Inr (map col1 R2, map col2 R2, map col3 R2, map col4 R2))"
proof -
  define R1 where "R1 = filter (\<lambda>r. \<not> lt_zero (col2 r)) R"
  have m1: "less_zero (map col2 R) = map (\<lambda>r. lt_zero (col2 r)) R"
    by (simp add: less_zero_def)
  have m2: "less_zero (map col4 R1) = map (\<lambda>r. lt_zero (col4 r)) R1"
    by (simp add: less_zero_def)
  have d1: "np_delete (map g R) (np_where (less_zero (map col2 R))) = Inr (map g R1)" for g :: "_ \<Rightarrow> npfloat"
    unfolding m1 R1_def by (rule np_delete_where)
  have d2: "np_delete (map g R1) (np_where (less_zero (map col4 R1))) =
      Inr (map g (filter (\<lambda>r. \<not> lt_zero (col4 r)) R1))" for g :: "_ \<Rightarrow> npfloat"
    unfolding m2 by (rule np_delete_where)
  have b: "bind_err (Inr v) f = f v" for v :: "npfloat list" and f :: "npfloat list \<Rightarrow> py_error + (npfloat list \<times> npfloat list \<times> npfloat list \<times> npfloat list)"
    by (simp add: bind_err_def)
  show ?thesis
    unfolding changeNaN_def Let_def d1 b d2 unfolding R1_def by (rule refl)
qed

lemma no_negative_flux_cols:
  "no_negative_flux r = (\<not> lt_zero (col2 r) \<and> \<not> lt_zero (col4 r))"
  by (cases r) (simp add: no_negative_flux_def col2_def col4_def)

text \<open>
  Claim C3, amended: for four arrays of one length, \<open>changeNaN\<close> returns (it does not
  raise) four arrays of one length; their rows are exactly the input rows \<open>i\<close> for
  which neither \<open>fluxx[i] < 0\<close> nor \<open>fluxx1[i] < 0\<close> holds, in their original
  order (a row whose flux is a NaN is kept); and no element of either returned flux array
  is negative.
\<close>

theorem changeNaN_drops_negative_rows:
  assumes "length wavv = length fluxx" and "length wavv1 = length fluxx"
    and "length fluxx1 = length fluxx"
  shows "\<exists>w f w1 f1.
     changeNaN wavv fluxx wavv1 fluxx1 = Inr (w, f, w1, f1) \<and>
     length w = length f \<and> length w1 = length f \<and> length f1 = length f \<and>
     rows4 w f w1 f1 = filter no_negative_flux (rows4 wavv fluxx wavv1 fluxx1) \<and>
     list_all (\<lambda>v. \<not> lt_zero v) f \<and> list_all (\<lambda>v. \<not> lt_zero v) f1"
proof -
  define R where "R = rows4 wavv fluxx wavv1 fluxx1"
  define R2 where "R2 = filter (\<lambda>r. \<not> lt_zero (col4 r)) (filter (\<lambda>r. \<not> lt_zero (col2 r)) R)"
  have cols: "wavv = map col1 R" "fluxx = map col2 R" "wavv1 = map col3 R" "fluxx1 = map col4 R"
    unfolding R_def using cols_rows4 [OF assms] by simp_all
  have res: "changeNaN wavv fluxx wavv1 fluxx1 = Inr (map col1 R2, map col2 R2, map col3 R2, map col4 R2)"
    unfolding cols changeNaN_rows Let_def R2_def by (rule refl)
  have R2: "R2 = filter no_negative_flux R"
    unfolding R2_def by (simp add: no_negative_flux_cols [abs_def] conj_commute)
  have rows: "rows4 (map col1 R2) (map col2 R2) (map col3 R2) (map col4 R2) =
      filter no_negative_flux (rows4 wavv fluxx wavv1 fluxx1)"
    unfolding rows4_cols R2 R_def by (rule refl)
  have f: "list_all (\<lambda>v. \<not> lt_zero v) (map col2 R2)"
    unfolding R2_def by (simp add: list_all_iff)
  have f1: "list_all (\<lambda>v. \<not> lt_zero v) (map col4 R2)"
    unfolding R2_def by (simp add: list_all_iff)
  have "length (map col1 R2) = length (map col2 R2)" "length (map col3 R2) = length (map col2 R2)"
    "length (map col4 R2) = length (map col2 R2)" by simp_all
  with res rows f f1 show ?thesis by blast
qed

theorem changeNaN_drops_negative_rows_witness:
  "changeNaN [Fin 1, Fin 2, Fin 3, Fin 4] [Fin (-1), NaN, Fin 5, Fin 0] [Fin 6, Fin 7, Fin 8, Fin 9]
      [Fin 1, Fin 2, Fin (-3), PInf] =
     Inr ([Fin 2, Fin 4], [NaN, Fin 0], [Fin 7, Fin 9], [Fin 2, PInf]) \<and>
   filter no_negative_flux (rows4 [Fin 1, Fin 2, Fin 3, Fin 4] [Fin (-1), NaN, Fin 5, Fin 0]
      [Fin 6, Fin 7, Fin 8, Fin 9] [Fin 1, Fin 2, Fin (-3), PInf]) =
     rows4 [Fin 2, Fin 4] [NaN, Fin 0] [Fin 7, Fin 9] [Fin 2, PInf]"
  using changeNaN_drops_negative_rows [of "[Fin 1, Fin 2, Fin 3, Fin 4]" "[Fin (-1), NaN, Fin 5, Fin 0]"
      "[Fin 6, Fin 7, Fin 8, Fin 9]" "[Fin 1, Fin 2, Fin (-3), PInf]"]
  by (simp add: changeNaN_def np_where_def less_zero_def np_delete_def bind_err_def
      rows4_def no_negative_flux_def)

text \<open>
  The claim as worded, "the rows are exactly the input rows with \<open>fluxx[i] >= 0\<close> and
  \<open>fluxx1[i] >= 0\<close>", fails on a NaN flux: \<open>nan < 0\<close> is false, so the row stays,
  and \<open>nan >= 0\<close> is false too.
\<close>

theorem changeNaN_keeps_nan_row:
  "changeNaN [Fin 1] [NaN] [Fin 1] [Fin 1] = Inr ([Fin 1], [NaN], [Fin 1], [Fin 1]) \<and>
   rows4 [Fin 1] [NaN] [Fin 1] [Fin 1] \<noteq>
     filter both_flux_ge_zero (rows4 [Fin 1] [NaN] [Fin 1] [Fin 1]) \<and>
   \<not> ge_zero NaN"
  by (simp add: changeNaN_def np_where_def less_zero_def np_delete_def bind_err_def
      rows4_def both_flux_ge_zero_def)

text \<open>Without a NaN among the fluxes the two readings of "the rows that stay" agree.\<close>

lemma ge_zero_iff: "\<not> is_nan v \<Longrightarrow> ge_zero v = (\<not> lt_zero v)"
  by (cases v) auto

lemma rows4_flux_mem:
  "(x, f, x1, f1) \<in> set (rows4 a b c d) \<Longrightarrow> f \<in> set b \<and> f1 \<in> set d"
  by (auto simp: rows4_def dest: set_zip_rightD set_zip_leftD)

lemma no_negative_is_ge_zero:
  assumes "list_all (\<lambda>v. \<not> is_nan v) fluxx" and "list_all (\<lambda>v. \<not> is_nan v) fluxx1"
  shows "filter no_negative_flux (rows4 wavv fluxx wavv1 fluxx1) =
         filter both_flux_ge_zero (rows4 wavv fluxx wavv1 fluxx1)"
proof (rule filter_cong [OF refl])
  fix r assume r: "r \<in> set (rows4 wavv fluxx wavv1 fluxx1)"
  obtain x f x1 f1 where eq: "r = (x, f, x1, f1)" by (cases r) auto
  from r have "(x, f, x1, f1) \<in> set (rows4 wavv fluxx wavv1 fluxx1)" by (simp only: eq)
  then have "f \<in> set fluxx \<and> f1 \<in> set fluxx1" by (rule rows4_flux_mem)
  with assms have "\<not> is_nan f" and "\<not> is_nan f1" by (auto simp: list_all_iff)
  then show "no_negative_flux r = both_flux_ge_zero r"
    by (simp add: eq no_negative_flux_def both_flux_ge_zero_def ge_zero_iff)
qed

subsection \<open>The table of candidates\<close>

text \<open>The order on the keys is total and transitive, so insertion keeps a table sorted.\<close>


lemma key_le_total: "key_le a b \<or> key_le b a"
  by (cases a; cases b) auto

lemma key_le_trans: "key_le a b \<Longrightarrow> key_le b c \<Longrightarrow> key_le a c"
  by (cases a; cases b; cases c) auto

lemma mset_insert_by_qmin: "mset (insert_by_qmin r xs) = add_mset r (mset xs)"
  by (induction xs) simp_all

lemma set_insert_by_qmin: "set (insert_by_qmin r xs) = insert r (set xs)"
  by (induction xs) auto

lemma sorted_insert_by_qmin:
  assumes "sorted_wrt (\<lambda>r s. key_le (qmin r) (qmin s)) xs"
  shows "sorted_wrt (\<lambda>r s. key_le (qmin r) (qmin s)) (insert_by_qmin r xs)"
  using assms
proof (induction xs)
  case Nil
  show ?case by simp
next
  case (Cons s rest)
  show ?case
  proof (cases "key_le (qmin r) (qmin s)")
    case True
    then have "\<forall>x\<in>set rest. key_le (qmin r) (qmin x)"
      using Cons.prems key_le_trans by auto
    with True Cons.prems show ?thesis by simp
  next
    case False
    then have sr: "key_le (qmin s) (qmin r)" using key_le_total by blast
    have "sorted_wrt (\<lambda>r s. key_le (qmin r) (qmin s)) (insert_by_qmin r rest)"
      using Cons.IH Cons.prems by simp
    moreover have "\<forall>x\<in>set (insert_by_qmin r rest). key_le (qmin s) (qmin x)"
      using sr Cons.prems by (simp add: set_insert_by_qmin)
    ultimately show ?thesis using False by simp
  qed
qed

lemma mset_sort_qmin: "mset (sort_qmin tbl) = mset tbl"
  by (induction tbl) (simp_all add: sort_qmin_def mset_insert_by_qmin)

lemma sorted_sort_qmin: "sorted_wrt (\<lambda>r s. key_le (qmin r) (qmin s)) (sort_qmin tbl)"
proof (induction tbl)
  case Nil
  show ?case by (simp add: sort_qmin_def)
next
  case (Cons r tbl)
  have "sort_qmin (r # tbl) = insert_by_qmin r (sort_qmin tbl)" by (simp add: sort_qmin_def)
  then show ?case using Cons.IH by (simp only: sorted_insert_by_qmin)
qed

text \<open>
  Whatever sorting routine stands for \<open>Table.sort\<close>: if it permutes the rows and leaves
  the measured ones in increasing order, then reversing and dropping the masked rows gives
  the measured rows in non-increasing order.
\<close>

lemma sort_reverse_filter:
  assumes "mset (srt tbl) = mset tbl"
    and "sorted_wrt (\<lambda>r s. \<forall>a b. qmin r = Some a \<longrightarrow> qmin s = Some b \<longrightarrow> a \<le> b) (srt tbl)"
  shows "mset (filter unmasked (rev (srt tbl))) = filter_mset unmasked (mset tbl)"
    and "sorted_wrt qmin_ge (filter unmasked (rev (srt tbl)))"
proof -
  show "mset (filter unmasked (rev (srt tbl))) = filter_mset unmasked (mset tbl)"
    using assms(1) by simp
  have "sorted_wrt (\<lambda>r s. \<forall>a b. qmin s = Some a \<longrightarrow> qmin r = Some b \<longrightarrow> a \<le> b) (rev (srt tbl))"
    using assms(2) by (simp add: sorted_wrt_rev)
  then have d: "sorted_wrt (\<lambda>r s. \<forall>a b. qmin s = Some a \<longrightarrow> qmin r = Some b \<longrightarrow> a \<le> b)
      (filter unmasked (rev (srt tbl)))"
    by (rule sorted_wrt_filter)
  show "sorted_wrt qmin_ge (filter unmasked (rev (srt tbl)))"
  proof (rule sorted_wrt_mono_rel [OF _ d])
    fix x y
    assume "x \<in> set (filter unmasked (rev (srt tbl)))" and "y \<in> set (filter unmasked (rev (srt tbl)))"
      and le: "\<forall>a b. qmin y = Some a \<longrightarrow> qmin x = Some b \<longrightarrow> a \<le> b"
    then obtain a b where "qmin y = Some a" and "qmin x = Some b"
      by (auto simp: unmasked_def)
    with le show "qmin_ge x y" by (simp add: qmin_ge_def)
  qed
qed

lemma key_le_measured:
  "key_le (qmin r) (qmin s) \<Longrightarrow> \<forall>a b. qmin r = Some a \<longrightarrow> qmin s = Some b \<longrightarrow> a \<le> b"
  by auto

text \<open>
  Claim C4: the rows that sort, reverse and mask filter return are exactly the input rows
  with a measured \<open>qmin\<close> (as a multiset, so each as often as it occurs), in
  non-increasing order of \<open>qmin\<close>; the sorted and reversed table is a permutation of
  the input in descending order of the key, and the filter keeps its rows in that order.
\<close>

theorem candidates_pipeline_descending:
  "mset (candidates_pipeline tbl) = filter_mset unmasked (mset tbl) \<and>
   sorted_wrt qmin_ge (candidates_pipeline tbl) \<and>
   mset (rev (sort_qmin tbl)) = mset tbl \<and>
   sorted_wrt (\<lambda>r s. key_le (qmin s) (qmin r)) (rev (sort_qmin tbl)) \<and>
   subseq (candidates_pipeline tbl) (rev (sort_qmin tbl))"
proof -
  have asc: "sorted_wrt (\<lambda>r s. \<forall>a b. qmin r = Some a \<longrightarrow> qmin s = Some b \<longrightarrow> a \<le> b) (sort_qmin tbl)"
    by (rule sorted_wrt_mono_rel [OF _ sorted_sort_qmin]) (rule key_le_measured)
  have 1: "mset (candidates_pipeline tbl) = filter_mset unmasked (mset tbl)"
    unfolding candidates_pipeline_def using mset_sort_qmin asc by (rule sort_reverse_filter(1))
  have 2: "sorted_wrt qmin_ge (candidates_pipeline tbl)"
    unfolding candidates_pipeline_def using mset_sort_qmin asc by (rule sort_reverse_filter(2))
  have 3: "mset (rev (sort_qmin tbl)) = mset tbl" by (simp add: mset_sort_qmin)
  have 4: "sorted_wrt (\<lambda>r s. key_le (qmin s) (qmin r)) (rev (sort_qmin tbl))"
    using sorted_sort_qmin by (simp add: sorted_wrt_rev)
  have 5: "subseq (candidates_pipeline tbl) (rev (sort_qmin tbl))"
    unfolding candidates_pipeline_def by (rule subseq_filter_left)
  from 1 2 3 4 5 show ?thesis by blast
qed

theorem candidates_pipeline_descending_witness:
  "candidates_pipeline
     [\<lparr>APOGEE = ''2M07282117+2232479'', Per = Some 39.27491, M1 = Some 1.08022,
        M2min = Some 0.13520, qmin = Some 0.12516, RAJ2000 = 112.088243, DEJ2000 = 22.546661\<rparr>,
      \<lparr>APOGEE = ''2M00000000+0000000'', Per = Some 10, M1 = None,
        M2min = None, qmin = None, RAJ2000 = 1, DEJ2000 = 2\<rparr>,
      \<lparr>APOGEE = ''2M19565473+2206194'', Per = Some 98.82371, M1 = Some 1.05631,
        M2min = Some 0.21351, qmin = Some 0.20213, RAJ2000 = 299.228079, DEJ2000 = 22.105410\<rparr>] =
     [\<lparr>APOGEE = ''2M19565473+2206194'', Per = Some 98.82371, M1 = Some 1.05631,
        M2min = Some 0.21351, qmin = Some 0.20213, RAJ2000 = 299.228079, DEJ2000 = 22.105410\<rparr>,
      \<lparr>APOGEE = ''2M07282117+2232479'', Per = Some 39.27491, M1 = Some 1.08022,
        M2min = Some 0.13520, qmin = Some 0.12516, RAJ2000 = 112.088243, DEJ2000 = 22.546661\<rparr>] \<and>
   sorted_wrt qmin_ge (candidates_pipeline
     [\<lparr>APOGEE = ''2M07282117+2232479'', Per = Some 39.27491, M1 = Some 1.08022,
        M2min = Some 0.13520, qmin = Some 0.12516, RAJ2000 = 112.088243, DEJ2000 = 22.546661\<rparr>,
      \<lparr>APOGEE = ''2M00000000+0000000'', Per = Some 10, M1 = None,
        M2min = None, qmin = None, RAJ2000 = 1, DEJ2000 = 2\<rparr>,
      \<lparr>APOGEE = ''2M19565473+2206194'', Per = Some 98.82371, M1 = Some 1.05631,
        M2min = Some 0.21351, qmin = Some 0.20213, RAJ2000 = 299.228079, DEJ2000 = 22.105410\<rparr>])"
  using candidates_pipeline_descending [of
     "[\<lparr>APOGEE = ''2M07282117+2232479'', Per = Some 39.27491, M1 = Some 1.08022,
        M2min = Some 0.13520, qmin = Some 0.12516, RAJ2000 = 112.088243, DEJ2000 = 22.546661\<rparr>,
      \<lparr>APOGEE = ''2M00000000+0000000'', Per = Some 10, M1 = None,
        M2min = None, qmin = None, RAJ2000 = 1, DEJ2000 = 2\<rparr>,
      \<lparr>APOGEE = ''2M19565473+2206194'', Per = Some 98.82371, M1 = Some 1.05631,
        M2min = Some 0.21351, qmin = Some 0.20213, RAJ2000 = 299.228079, DEJ2000 = 22.105410\<rparr>]"]
  by (simp add: candidates_pipeline_def sort_qmin_def unmasked_def)

subsection \<open>Saving and reading back\<close>

text \<open>A column of two or more numbers, or of none, is read back as it was written.\<close>



lemma squeeze_rows_column:
  assumes "length xs \<noteq> 1"
  shows "squeeze_rows (map (\<lambda>v. [v]) xs) = Inr (Arr1 xs)"
proof (cases xs)
  case Nil
  then show ?thesis by (simp add: squeeze_rows_def)
next
  case (Cons x rest)
  with assms obtain y ys where rest: "rest = y # ys" by (cases rest) auto
  have nonempty: "filter (\<lambda>r. r \<noteq> []) (map (\<lambda>v. [v]) xs) = map (\<lambda>v. [v]) xs"
    by (induction xs) simp_all
  have heads: "map hd (map (\<lambda>v. [v]) xs) = xs" by (induction xs) simp_all
  have same: "list_all (\<lambda>q. length q = length [x]) (map (\<lambda>v. [v]) rest)"
    by (simp add: list_all_iff)
  have "squeeze_rows (map (\<lambda>v. [v]) xs) = Inr (Arr1 (map hd (map (\<lambda>v. [v]) xs)))"
    unfolding squeeze_rows_def nonempty using same by (simp add: Cons rest)
  then show ?thesis by (simp only: heads)
qed

text \<open>So is a table of two or more rows and two or more columns.\<close>

lemma squeeze_rows_matrix:
  assumes "2 \<le> length rows" and "list_all (\<lambda>r. length r = c) rows" and "2 \<le> c"
  shows "squeeze_rows rows = Inr (Arr2 rows)"
proof -
  obtain r s rest where rows: "rows = r # s # rest"
    using assms(1) by (cases rows; cases "tl rows") auto
  have len: "\<forall>q\<in>set rows. length q = c" using assms(2) by (simp add: list_all_iff)
  then have "\<forall>q\<in>set rows. q \<noteq> []" using assms(3) by auto
  then have nonempty: "filter (\<lambda>r. r \<noteq> []) rows = rows" by (simp add: filter_id_conv)
  have r: "length r = c" and rest: "list_all (\<lambda>q. length q = length r) (s # rest)"
    using len by (simp_all add: rows list_all_iff)
  show ?thesis
    unfolding squeeze_rows_def nonempty using r rest assms(3) by (simp add: rows)
qed

text \<open>
  Where the path can be opened, on a one-dimensional array whose length is not 1 and on a
  two-dimensional array with at least two rows and two columns the function does what its
  docstring says: the file is read back as the array, the same first and last three
  elements are printed for both, and the function returns.
\<close>

lemma saveArray_round_trip_1d:
  assumes "array wd = Arr1 xs" and "length xs \<noteq> 1"
    and "open_error wd ForWrite filename = None" and "open_error wd ForRead filename = None"
  shows "reread filename wd = Inr (Arr1 xs)"
    and "saveArray filename wd =
       (Inr (),
        wd\<lparr>files := (files wd)(filename \<mapsto> map (\<lambda>v. [v]) xs),
           printed := printed wd @
             [Arr1 (take 3 xs), Arr1 (drop (length xs - 3) xs),
              Arr1 (take 3 xs), Arr1 (drop (length xs - 3) xs)]\<rparr>)"
  using assms
  by (simp_all add: reread_def saveArray_def Let_def print_np_def np_savetxt_def np_loadtxt_def
      squeeze_rows_column)

lemma saveArray_round_trip_2d:
  assumes "array wd = Arr2 rows" and "2 \<le> length rows"
    and "list_all (\<lambda>r. length r = c) rows" and "2 \<le> c"
    and "open_error wd ForWrite filename = None" and "open_error wd ForRead filename = None"
  shows "reread filename wd = Inr (Arr2 rows)"
    and "saveArray filename wd =
       (Inr (),
        wd\<lparr>files := (files wd)(filename \<mapsto> rows),
           printed := printed wd @
             [Arr2 (take 3 rows), Arr2 (drop (length rows - 3) rows),
              Arr2 (take 3 rows), Arr2 (drop (length rows - 3) rows)]\<rparr>)"
  using assms(1,5,6) squeeze_rows_matrix [OF assms(2,3,4)]
  by (simp_all add: reread_def saveArray_def Let_def print_np_def np_savetxt_def np_loadtxt_def)

text \<open>
  Every array of one element makes \<open>saveArray\<close> raise IndexError after the file is
  written; a path that cannot be opened makes it raise what the operating system raises.
\<close>

lemma saveArray_singleton:
  assumes "array wd = Arr1 [v]"
    and "open_error wd ForWrite filename = None" and "open_error wd ForRead filename = None"
  shows "reread filename wd = Inr (Arr0 v)"
    and "fst (saveArray filename wd) = Inl IndexError"
    and "files (snd (saveArray filename wd)) filename = Some [[v]]"
  using assms
  by (simp_all add: reread_def saveArray_def Let_def np_loadtxt_def np_savetxt_def
      squeeze_rows_def print_np_def)

lemma saveArray_cannot_open:
  assumes "array wd = Arr1 xs" and "open_error wd ForWrite filename = Some e"
  shows "fst (saveArray filename wd) = Inl e" and "files (snd (saveArray filename wd)) = files wd"
  using assms
  by (simp_all add: saveArray_def Let_def np_savetxt_def print_np_def)

text \<open>
  Claim C5 (the code departs from it): for every finite array, writing it with
  \<open>np.savetxt\<close> and reading it back at once with \<open>np.loadtxt\<close> should give an array
  equal to the original, with \<open>saveArray\<close> completing its check. On the array of the
  one element \<open>2.5\<close>, in a world where every path can be opened, the file holds that one
  number, \<open>np.loadtxt\<close> returns it as an array without axes, which is not the
  one-dimensional original, and \<open>saveArray\<close> raises IndexError at \<open>content[:3]\<close>,
  after it has written the file and printed the two slices of the original.
\<close>

theorem saveArray_single_element:
  "reread ''flux.txt'' (fresh_world (Arr1 [5 / 2])) = Inr (Arr0 (5 / 2)) \<and>
   Arr0 (5 / 2) \<noteq> Arr1 [5 / 2] \<and>
   fst (saveArray ''flux.txt'' (fresh_world (Arr1 [5 / 2]))) = Inl IndexError \<and>
   files (snd (saveArray ''flux.txt'' (fresh_world (Arr1 [5 / 2])))) ''flux.txt'' = Some [[5 / 2]] \<and>
   printed (snd (saveArray ''flux.txt'' (fresh_world (Arr1 [5 / 2])))) =
     [Arr1 [5 / 2], Arr1 [5 / 2]]"
  by (simp add: fresh_world_def reread_def saveArray_def Let_def np_loadtxt_def np_savetxt_def
      squeeze_rows_def print_np_def)

subsection \<open>Expanding the canvas\<close>


lemma bind_err_Inr: "bind_err (Inr v) f = f v"
  by (simp add: bind_err_def)

lemma length_np_zeros2: "length (np_zeros2 r c) = r"
  by (simp add: np_zeros2_def)

lemma ncols_np_zeros2: "ncols (np_zeros2 r c) = (if r = 0 then 0 else c)"
  by (cases r) (simp_all add: ncols_def np_zeros2_def)

lemma ncols_rows:
  assumes "\<forall>row\<in>set m. length row = k" and "m = [] \<longrightarrow> k = 0"
  shows "ncols m = k"
  using assms by (cases m) (simp_all add: ncols_def)

lemma square_rows: "square n m \<Longrightarrow> \<forall>row\<in>set m. length row = n"
  by (simp add: square_def list_all_iff)

lemma square_length: "square n m \<Longrightarrow> length m = n"
  by (simp add: square_def)

lemma ncols_square: "square n m \<Longrightarrow> ncols m = n"
  by (rule ncols_rows) (auto simp: square_def list_all_iff)

lemma moveaxis_np_zeros2: "moveaxis_0_1 (np_zeros2 n (3 * n)) = np_zeros2 (3 * n) n"
proof -
  have c: "ncols (np_zeros2 n (3 * n)) = 3 * n" by (simp add: ncols_np_zeros2)
  have inner: "map (\<lambda>i. np_zeros2 n (3 * n) ! i ! j) [0..<n] = replicate n 0" if "j < 3 * n" for j
  proof -
    have "map (\<lambda>i. np_zeros2 n (3 * n) ! i ! j) [0..<n] = map (\<lambda>i. 0) [0..<n]"
      using that by (intro map_cong refl) (simp add: np_zeros2_def)
    then show ?thesis by (simp add: map_replicate_const)
  qed
  have "map (\<lambda>j. map (\<lambda>i. np_zeros2 n (3 * n) ! i ! j) [0..<n]) [0..<3 * n] =
        map (\<lambda>j. replicate n 0) [0..<3 * n]"
    by (intro map_cong refl) (simp add: inner)
  moreover have "moveaxis_0_1 (np_zeros2 n (3 * n)) =
        map (\<lambda>j. map (\<lambda>i. np_zeros2 n (3 * n) ! i ! j) [0..<n]) [0..<3 * n]"
    unfolding moveaxis_0_1_def c length_np_zeros2 by (rule refl)
  moreover have "map (\<lambda>j. replicate n (0::real)) [0..<3 * n] = np_zeros2 (3 * n) n"
    by (simp add: map_replicate_const np_zeros2_def)
  ultimately show ?thesis by (simp only:)
qed

lemma zip_replicate_all: "zip xs (replicate (length xs) z) = map (\<lambda>x. (x, z)) xs"
  by (induction xs) simp_all

lemma insert_columns:
  assumes "length arr = 3 * n" and "\<forall>row\<in>set arr. length row = k" and "arr = [] \<longrightarrow> k = 0"
    and "obj \<le> k"
  shows "np_insert_axis1 arr obj (np_zeros2 n (3 * n)) =
     Inr (map (\<lambda>row. take obj row @ replicate n 0 @ drop obj row) arr)"
proof -
  have nc: "ncols arr = k" using assms(2,3) by (rule ncols_rows)
  have len: "length (moveaxis_0_1 (np_zeros2 n (3 * n))) = length arr"
    by (simp add: moveaxis_np_zeros2 length_np_zeros2 assms(1))
  have z: "moveaxis_0_1 (np_zeros2 n (3 * n)) = replicate (length arr) (replicate n 0)"
    unfolding moveaxis_np_zeros2 by (simp add: np_zeros2_def assms(1))
  have "map2 (\<lambda>row v. take obj row @ v @ drop obj row) arr (replicate (length arr) (replicate n 0)) =
        map (\<lambda>row. take obj row @ replicate n 0 @ drop obj row) arr"
    by (simp add: zip_replicate_all comp_def)
  then show ?thesis
    using assms(4) len by (simp add: np_insert_axis1_def nc z)
qed

lemma expand_canvas_padded:
  assumes "square n image0"
  shows "expand_canvas image0 =
     Inr \<lparr> images_mbm15_0 = image0, w = n, new_zeros = np_zeros2 n n,
           new_zeros2 = np_zeros2 n (3 * n), new_image = padded n image0 \<rparr>"
proof -
  let ?z = "np_zeros2 n n"
  let ?core = "?z @ image0 @ ?z"
  have len: "length image0 = n" using assms by (rule square_length)
  have rows: "\<forall>row\<in>set image0. length row = n" using assms by (rule square_rows)
  have zrows: "\<forall>row\<in>set ?z. length row = n" by (simp add: np_zeros2_def)
  have s1: "np_append_axis0 image0 ?z = Inr (image0 @ ?z)"
    by (simp add: np_append_axis0_def ncols_square [OF assms] ncols_np_zeros2)
  have "ncols (image0 @ ?z) = n"
    by (rule ncols_rows) (use rows zrows len in \<open>auto simp: length_np_zeros2 np_zeros2_def\<close>)
  then have s2: "np_insert_axis0 (image0 @ ?z) 0 ?z = Inr ?core"
    by (simp add: np_insert_axis0_def ncols_np_zeros2)
  have clen: "length ?core = 3 * n" by (simp add: len length_np_zeros2)
  have crows: "\<forall>row\<in>set ?core. length row = n" using rows zrows by auto
  have cempty: "?core = [] \<longrightarrow> n = 0" using len by auto
  have s3: "np_insert_axis1 ?core 0 (np_zeros2 n (3 * n)) =
      Inr (map (\<lambda>row. replicate n 0 @ row) ?core)"
    using insert_columns [OF clen crows cempty, of 0] by simp
  let ?left = "map (\<lambda>row. replicate n 0 @ row) ?core"
  have llen: "length ?left = 3 * n" using clen by simp
  have lrows: "\<forall>row\<in>set ?left. length row = 2 * n" using crows by auto
  have lempty: "?left = [] \<longrightarrow> 2 * n = 0" using cempty by simp
  have "np_insert_axis1 ?left (2 * n) (np_zeros2 n (3 * n)) =
      Inr (map (\<lambda>row. take (2 * n) row @ replicate n 0 @ drop (2 * n) row) ?left)"
    using insert_columns [OF llen lrows lempty, of "2 * n"] by simp
  moreover have "map (\<lambda>row. take (2 * n) row @ replicate n 0 @ drop (2 * n) row) ?left =
      map (\<lambda>row. row @ replicate n 0) ?left"
    by (rule map_cong [OF refl]) (use lrows in simp)
  moreover have "map (\<lambda>row. row @ replicate n 0) ?left = padded n image0"
    by (simp add: padded_def)
  ultimately have s4: "np_insert_axis1 ?left (2 * n) (np_zeros2 n (3 * n)) = Inr (padded n image0)"
    by (simp only:)
  show ?thesis
    unfolding expand_canvas_def Let_def len s1 bind_err_Inr s2 s3 s4 by (rule refl)
qed

lemma padded_shape: "square n image0 \<Longrightarrow> square (3 * n) (padded n image0)"
  by (auto simp: square_def padded_def list_all_iff np_zeros2_def)

lemma padded_nth:
  assumes "square n image0" and "i < 3 * n" and "j < 3 * n"
  shows "padded n image0 ! i ! j =
     (if n \<le> i \<and> i < 2 * n \<and> n \<le> j \<and> j < 2 * n then image0 ! (i - n) ! (j - n) else 0)"
proof -
  let ?core = "np_zeros2 n n @ image0 @ np_zeros2 n n"
  have len: "length image0 = n" using assms(1) by (rule square_length)
  have clen: "length ?core = 3 * n" by (simp add: len length_np_zeros2)
  have "i < length ?core" using assms(2) clen by (simp only:)
  then have row: "padded n image0 ! i = replicate n 0 @ ?core ! i @ replicate n 0"
    unfolding padded_def by (rule nth_map)
  have core: "?core ! i = (if n \<le> i \<and> i < 2 * n then image0 ! (i - n) else replicate n 0)"
    using assms(2) len by (auto simp: nth_append np_zeros2_def)
  show ?thesis
  proof (cases "n \<le> i \<and> i < 2 * n")
    case True
    then have "i - n < length image0" using len by arith
    then have "image0 ! (i - n) \<in> set image0" by simp
    then have rl: "length (image0 ! (i - n)) = n" using square_rows [OF assms(1)] by blast
    have "?core ! i = image0 ! (i - n)" using core True by (simp only: if_True simp_thms)
    then have r: "padded n image0 ! i = replicate n 0 @ image0 ! (i - n) @ replicate n 0"
      by (simp only: row)
    have "(replicate n 0 @ image0 ! (i - n) @ replicate n 0) ! j =
        (if n \<le> j \<and> j < 2 * n then image0 ! (i - n) ! (j - n) else 0)"
      using assms(3) rl by (auto simp: nth_append)
    then show ?thesis using True by (simp only: r if_True simp_thms)
  next
    case False
    have "?core ! i = replicate n 0" using core False by (simp only: if_False simp_thms)
    then have r: "padded n image0 ! i = replicate n 0 @ replicate n 0 @ replicate n 0"
      by (simp only: row)
    have "(replicate n 0 @ replicate n 0 @ replicate n (0::real)) ! j = 0"
      using assms(3) by (auto simp: nth_append)
    then have "padded n image0 ! i ! j = 0" by (simp only: r)
    then show ?thesis using False by auto
  qed
qed

text \<open>
  Claim C8: for a square \<open>n\<close>-by-\<open>n\<close> central image the cell runs without an
  exception and leaves in \<open>new_image\<close> a \<open>3n\<close>-by-\<open>3n\<close> array whose entry at row
  \<open>i\<close>, column \<open>j\<close> is the image's entry at \<open>(i - n, j - n)\<close> when both indices
  are in \<open>n..2n-1\<close> and zero otherwise; the central image is the one it was.
\<close>

theorem expand_canvas_centered:
  assumes "square n image0"
  shows "\<exists>s. expand_canvas image0 = Inr s \<and> images_mbm15_0 s = image0 \<and>
     square (3 * n) (new_image s) \<and>
     (\<forall>i < 3 * n. \<forall>j < 3 * n. new_image s ! i ! j =
        (if n \<le> i \<and> i < 2 * n \<and> n \<le> j \<and> j < 2 * n then image0 ! (i - n) ! (j - n) else 0))"
  using expand_canvas_padded [OF assms] padded_shape [OF assms] padded_nth [OF assms]
  by simp

theorem expand_canvas_centered_witness:
  "square 2 [[1, 2], [3, 4]] \<and>
   expand_canvas [[1, 2], [3, 4]] =
     Inr \<lparr> images_mbm15_0 = [[1, 2], [3, 4]], w = 2, new_zeros = [[0, 0], [0, 0]],
           new_zeros2 = [[0, 0, 0, 0, 0, 0], [0, 0, 0, 0, 0, 0]],
           new_image = [[0, 0, 0, 0, 0, 0], [0, 0, 0, 0, 0, 0], [0, 0, 1, 2, 0, 0],
                        [0, 0, 3, 4, 0, 0], [0, 0, 0, 0, 0, 0], [0, 0, 0, 0, 0, 0]] \<rparr>"
  using expand_canvas_centered [of 2 "[[1, 2], [3, 4]]"]
  by (simp add: square_def expand_canvas_padded padded_def np_zeros2_def numeral_2_eq_2 numeral_3_eq_3)

subsection \<open>Replacing NaN pixels\<close>

text \<open>The mask is computed from the array it is applied to, so the statement is a map.\<close>



lemma map2_same: "map2 f xs (map g xs) = map (\<lambda>x. f x (g x)) xs"
  by (induction xs) simp_all

lemma scrub_nan_map:
  "scrub_nan a = map (map (\<lambda>v. if is_nan v then Fin 0 else v)) a"
  by (simp add: scrub_nan_def mask_assign_def np_isnan_def map2_same)

text \<open>
  Claim C9: after \<open>fits_img[np.isnan(fits_img)] = 0.0\<close> the array has its shape, no
  entry of it is a NaN, every entry that was a NaN is \<open>0.0\<close>, and every entry that
  was not a NaN is unchanged.
\<close>

theorem scrub_nan_frame:
  "length (scrub_nan a) = length a \<and>
   (\<forall>i < length a. length (scrub_nan a ! i) = length (a ! i) \<and>
      (\<forall>j < length (a ! i).
         \<not> is_nan (scrub_nan a ! i ! j) \<and>
         (is_nan (a ! i ! j) \<longrightarrow> scrub_nan a ! i ! j = Fin 0) \<and>
         (\<not> is_nan (a ! i ! j) \<longrightarrow> scrub_nan a ! i ! j = a ! i ! j)))"
  by (simp add: scrub_nan_map)

theorem scrub_nan_frame_witness:
  "scrub_nan [[Fin 1, NaN], [PInf, NaN]] = [[Fin 1, Fin 0], [PInf, Fin 0]] \<and>
   \<not> is_nan (scrub_nan [[Fin 1, NaN], [PInf, NaN]] ! 1 ! 1) \<and>
   scrub_nan [[Fin 1, NaN], [PInf, NaN]] ! 1 ! 0 = [[Fin 1, NaN], [PInf, NaN]] ! 1 ! 0"
  using scrub_nan_frame [of "[[Fin 1, NaN], [PInf, NaN]]"]
  by (simp add: scrub_nan_def mask_assign_def np_isnan_def)

subsection \<open>Splitting and rejoining a file name\<close>

lemma py_split_nonempty: "py_split sep s \<noteq> []"
  by (induction s) (auto split: list.splits)

lemma py_join_Cons: "fs \<noteq> [] \<Longrightarrow> py_join sep (f # fs) = f @ sep @ py_join sep fs"
  by (cases fs) simp_all

lemma py_join_Cons_char:
  "py_join sep ((c # f) # fs) = c # py_join sep (f # fs)"
  by (cases fs) simp_all

lemma py_join_split: "py_join [sep] (py_split sep s) = s"
proof (induction s)
  case Nil
  show ?case by simp
next
  case (Cons c cs)
  show ?case
  proof (cases "c = sep")
    case True
    then show ?thesis using Cons.IH py_split_nonempty [of sep cs]
      by (simp add: py_join_Cons)
  next
    case False
    obtain f fs where sp: "py_split sep cs = f # fs"
      using py_split_nonempty [of sep cs] by (cases "py_split sep cs") auto
    with False Cons.IH show ?thesis by (simp add: py_join_Cons_char)
  qed
qed

lemma py_split_no_sep: "f \<in> set (py_split sep s) \<Longrightarrow> sep \<notin> set f"
proof (induction s arbitrary: f)
  case Nil
  then show ?case by simp
next
  case (Cons c cs)
  obtain g gs where sp: "py_split sep cs = g # gs"
    using py_split_nonempty [of sep cs] by (cases "py_split sep cs") auto
  show ?case
  proof (cases "c = sep")
    case True
    with Cons show ?thesis by auto
  next
    case False
    with Cons.prems sp have "f = c # g \<or> f \<in> set gs" by simp
    then show ?thesis
    proof
      assume "f = c # g"
      moreover have "sep \<notin> set g" using Cons.IH [of g] sp by simp
      ultimately show ?thesis using False by auto
    next
      assume "f \<in> set gs"
      then show ?thesis using Cons.IH [of f] sp by simp
    qed
  qed
qed

lemma py_split_length: "sep \<in> set s \<Longrightarrow> 2 \<le> length (py_split sep s)"
proof (induction s)
  case Nil
  then show ?case by simp
next
  case (Cons c cs)
  obtain g gs where sp: "py_split sep cs = g # gs"
    using py_split_nonempty [of sep cs] by (cases "py_split sep cs") auto
  show ?case
  proof (cases "c = sep")
    case True
    then show ?thesis using sp by simp
  next
    case False
    with Cons.prems have "sep \<in> set cs" by simp
    then have "2 \<le> length (py_split sep cs)" by (rule Cons.IH)
    then show ?thesis using False sp by simp
  qed
qed

lemma py_join_butlast_last:
  "2 \<le> length fs \<Longrightarrow> py_join sep (butlast fs) @ sep @ last fs = py_join sep fs"
proof (induction sep fs rule: py_join.induct)
  case (1 sep)
  then show ?case by simp
next
  case (2 sep f)
  then show ?case by simp
next
  case (3 sep f g fs)
  show ?case
  proof (cases fs)
    case Nil
    then show ?thesis by simp
  next
    case (Cons h hs)
    then have "2 \<le> length (g # fs)" by simp
    then have "py_join sep (butlast (g # fs)) @ sep @ last (g # fs) = py_join sep (g # fs)"
      by (rule "3.IH")
    then show ?thesis using Cons by simp
  qed
qed

lemma slice_0_minus1_butlast: "slice_0_minus1 xs = butlast xs"
  by (simp add: slice_0_minus1_def butlast_conv_take)

text \<open>
  Claim C10: for a file name with at least one underscore, joining all fields of the
  split but the last gives the part of the name before its last underscore (the
  underscore stands at the index where the result ends, and no underscore follows it, the
  rest being the final field), and that prefix, an underscore and the final field put
  together are the file name again.
\<close>

theorem obs_id_split_rejoin:
  assumes "CHR ''_'' \<in> set filename"
  shows "obs_id_search filename @ ''_'' @ last_token filename = filename \<and>
     CHR ''_'' \<notin> set (last_token filename) \<and>
     length (last_token filename) < length filename \<and>
     obs_id_search filename =
       take (length filename - length (last_token filename) - 1) filename \<and>
     filename ! (length filename - length (last_token filename) - 1) = CHR ''_'' \<and>
     drop (length filename - length (last_token filename)) filename = last_token filename"
proof -
  let ?fs = "py_split (CHR ''_'') filename"
  have len: "2 \<le> length ?fs" using assms by (rule py_split_length)
  have "py_join ''_'' (butlast ?fs) @ ''_'' @ last ?fs = py_join ''_'' ?fs"
    using len by (rule py_join_butlast_last)
  then have eq: "obs_id_search filename @ ''_'' @ last_token filename = filename"
    by (simp add: obs_id_search_def last_token_def slice_0_minus1_butlast py_join_split)
  have "last ?fs \<in> set ?fs" using py_split_nonempty by simp
  then have nosep: "CHR ''_'' \<notin> set (last_token filename)"
    unfolding last_token_def by (rule py_split_no_sep)
  have l: "length filename = length (obs_id_search filename) + 1 + length (last_token filename)"
    using arg_cong [OF eq, of length] by simp
  then have lt: "length (last_token filename) < length filename" by simp
  from l have i: "length filename - length (last_token filename) - 1 = length (obs_id_search filename)"
    by simp
  have "obs_id_search filename = take (length (obs_id_search filename)) filename"
    using eq by (simp only: append_eq_conv_conj)
  then have pre: "obs_id_search filename = take (length filename - length (last_token filename) - 1) filename"
    by (simp only: i)
  have "(obs_id_search filename @ CHR ''_'' # last_token filename) ! length (obs_id_search filename) = CHR ''_''"
    by (rule nth_append_length)
  moreover have eq': "obs_id_search filename @ CHR ''_'' # last_token filename = filename"
    using eq by simp
  ultimately have "filename ! length (obs_id_search filename) = CHR ''_''" by (simp only:)
  then have us: "filename ! (length filename - length (last_token filename) - 1) = CHR ''_''"
    by (simp only: i)
  have "drop (Suc (length (obs_id_search filename)))
          (obs_id_search filename @ CHR ''_'' # last_token filename) = last_token filename"
    by simp
  then have "drop (Suc (length (obs_id_search filename))) filename = last_token filename"
    by (simp only: eq')
  moreover have "Suc (length (obs_id_search filename)) = length filename - length (last_token filename)"
    using l by simp
  ultimately have dr: "drop (length filename - length (last_token filename)) filename = last_token filename"
    by (simp only:)
  from eq nosep lt pre us dr show ?thesis by blast
qed

theorem obs_id_split_rejoin_witness:
  "CHR ''_'' \<in> set ''jw01039-o005_t001_miri_ch3-shortlongmedium-_x1d.fits'' \<and>
   obs_id_search ''jw01039-o005_t001_miri_ch3-shortlongmedium-_x1d.fits'' =
     ''jw01039-o005_t001_miri_ch3-shortlongmedium-'' \<and>
   last_token ''jw01039-o005_t001_miri_ch3-shortlongmedium-_x1d.fits'' = ''x1d.fits'' \<and>
   obs_id_search ''jw01039-o005_t001_miri_ch3-shortlongmedium-_x1d.fits'' @ ''_'' @
     last_token ''jw01039-o005_t001_miri_ch3-shortlongmedium-_x1d.fits'' =
     ''jw01039-o005_t001_miri_ch3-shortlongmedium-_x1d.fits''"
  using obs_id_split_rejoin [of "''jw01039-o005_t001_miri_ch3-shortlongmedium-_x1d.fits''"]
  by (simp add: obs_id_search_def last_token_def slice_0_minus1_def)

end
